theory Spec2Isabelle
  imports Main "HOL-Library.Word"
begin

section \<open>On-completion actions of the task plugin (src/Task/OnCompletion.ts)\<close>

subsection \<open>JavaScript strings\<close>

text \<open>
  A JavaScript string is a sequence of UTF-16 code units: \<open>includes\<close>, \<open>substring\<close>,
  \<open>split\<close>, \<open>===\<close> and a regular expression without the \<open>u\<close> flag all work on code
  units. ASCII literals of the source are written \<open>js ''...''\<close>; the checkered flag
  U+1F3C1 of the trigger is the surrogate pair D83C DFC1.
\<close>

type_synonym code_unit = "16 word"
type_synonym jsstring = "code_unit list"

definition js :: "string \<Rightarrow> jsstring" where
  "js s = map (\<lambda>c. of_nat (of_char c)) s"

definition checkeredFlag :: jsstring where
  "checkeredFlag = [0xD83C, 0xDFC1]"

definition NEWLINE :: jsstring where
  "NEWLINE = [0x000A]"

text \<open>
  \<open>s.startsWith(sub)\<close>, and \<open>s.includes(sub)\<close>: \<open>sub\<close> occurs at some position of \<open>s\<close>.
  (\<open>includes\<close> is a keyword of Isabelle, hence the name \<open>js_includes\<close>.)
\<close>

definition startsWith :: "jsstring \<Rightarrow> jsstring \<Rightarrow> bool" where
  "startsWith s sub \<longleftrightarrow> take (length sub) s = sub"

fun js_includes :: "jsstring \<Rightarrow> jsstring \<Rightarrow> bool" where
  "js_includes [] sub = (sub = [])"
| "js_includes (c # cs) sub = (startsWith (c # cs) sub \<or> js_includes cs sub)"

text \<open>
  \<open>trimStart\<close> removes the leading code units that are WhiteSpace or LineTerminator of
  ECMAScript: TAB, LF, VT, FF, CR, SP, NBSP, U+1680, U+2000..U+200A, U+2028, U+2029,
  U+202F, U+205F, U+3000 and U+FEFF. All of them are single code units.
\<close>

definition isWhiteSpace :: "code_unit \<Rightarrow> bool" where
  "isWhiteSpace c \<longleftrightarrow>
     c \<in> {0x0009, 0x000A, 0x000B, 0x000C, 0x000D, 0x0020, 0x00A0, 0x1680,
          0x2028, 0x2029, 0x202F, 0x205F, 0x3000, 0xFEFF}
     \<or> (0x2000 \<le> c \<and> c \<le> 0x200A)"

definition trimStart :: "jsstring \<Rightarrow> jsstring" where
  "trimStart s = dropWhile isWhiteSpace s"

text \<open>
  \<open>s.split('\n')\<close> and \<open>lines.join('\n')\<close>. Splitting the empty string gives one
  empty line, as in JavaScript; so the result is never empty
  (\<open>splitNewline_not_Nil\<close>), and the second case of the \<open>case\<close> below never applies.
\<close>

fun splitNewline :: "jsstring \<Rightarrow> jsstring list" where
  "splitNewline [] = [[]]"
| "splitNewline (c # cs) =
     (if c = 0x000A then [] # splitNewline cs
      else (case splitNewline cs of
              l # ls \<Rightarrow> (c # l) # ls
            | [] \<Rightarrow> [[c]]))"

fun joinNewline :: "jsstring list \<Rightarrow> jsstring" where
  "joinNewline [] = []"
| "joinNewline [l] = l"
| "joinNewline (l # ls) = l @ NEWLINE @ joinNewline ls"

text \<open>\<open>array.indexOf(x)\<close>: the first index holding \<open>x\<close>, or \<open>-1\<close>.\<close>

fun indexOf :: "'a list \<Rightarrow> 'a \<Rightarrow> int" where
  "indexOf [] x = - 1"
| "indexOf (y # ys) x =
     (if y = x then 0
      else (let i = indexOf ys x in if i = - 1 then - 1 else i + 1))"

subsection \<open>The line normalizer\<close>

text \<open>
  \<^verbatim>\<open>while (lineOfText.substring(0, 2) === '> ') lineOfText = lineOfText.substring(2);\<close>
\<close>

function removeCalloutPrefixes :: "jsstring \<Rightarrow> jsstring" where
  "removeCalloutPrefixes lineOfText =
     (if take 2 lineOfText = js ''> '' then removeCalloutPrefixes (drop 2 lineOfText)
      else lineOfText)"
  by pat_completeness auto
termination
proof (relation "measure length")
  fix lineOfText :: jsstring
  assume "take 2 lineOfText = js ''> ''"
  then have "lineOfText \<noteq> []"
    by (auto simp: js_def)
  then show "(drop 2 lineOfText, lineOfText) \<in> measure length"
    by simp
qed simp

declare removeCalloutPrefixes.simps [simp del]

definition adjustLineForArchival :: "jsstring \<Rightarrow> jsstring" where
  "adjustLineForArchival changedStatusTaskLine =
     removeCalloutPrefixes (trimStart changedStatusTaskLine)"

subsection \<open>Inserting a line at the end of a list\<close>

text \<open>
  \<open>TASK_REGEX\<close> is \<^verbatim>\<open>^(> )*( *(- \[.]))\<close>, without flags: anchored at the start of the
  string, any number of \<^verbatim>\<open>"> "\<close>, any number of spaces, then \<^verbatim>\<open>"- ["\<close>, one code unit
  that is not a line terminator (the meaning of \<^verbatim>\<open>.\<close>), and \<^verbatim>\<open>"]"\<close>. Neither star can
  give back what it took: the code unit after \<^verbatim>\<open>(> )*\<close> has to be a space or \<^verbatim>\<open>-\<close>, the
  one after the spaces has to be \<^verbatim>\<open>-\<close>. So matching is: strip, skip, compare.
  \<open>search\<close> returns the position of the match, which can only be 0, or \<open>-1\<close>.
\<close>

definition isLineTerminator :: "code_unit \<Rightarrow> bool" where
  "isLineTerminator c \<longleftrightarrow> c \<in> {0x000A, 0x000D, 0x2028, 0x2029}"

definition test_TASK_REGEX :: "jsstring \<Rightarrow> bool" where
  "test_TASK_REGEX thisLine =
     (case dropWhile (\<lambda>c. c = 0x0020) (removeCalloutPrefixes thisLine) of
        a # b # c # d # e # rest \<Rightarrow>
          [a, b, c] = js ''- ['' \<and> \<not> isLineTerminator d \<and> [e] = js '']''
      | _ \<Rightarrow> False)"

definition search_TASK_REGEX :: "jsstring \<Rightarrow> int" where
  "search_TASK_REGEX thisLine = (if test_TASK_REGEX thisLine then 0 else - 1)"

text \<open>
  \<^verbatim>\<open>for (const thisLine of linesArray.slice(insertionLine)) {
      if (thisLine.search(TASK_REGEX) === -1) break;
      insertionLine += 1; }\<close>
\<close>

fun advance :: "jsstring list \<Rightarrow> int \<Rightarrow> int" where
  "advance [] insertionLine = insertionLine"
| "advance (thisLine # rest) insertionLine =
     (if search_TASK_REGEX thisLine = - 1 then insertionLine
      else advance rest (insertionLine + 1))"

text \<open>
  \<^verbatim>\<open>linesArray[i] += s\<close>. Index \<open>-1\<close> is not an array index in JavaScript: the
  assignment creates a property named "-1" and leaves the elements, the length and
  therefore \<open>join\<close> untouched. An index past the end would extend the array with holes,
  which \<open>join\<close> renders as empty strings, and store \<^verbatim>\<open>"undefined" + s\<close>.
\<close>

definition appendAt :: "jsstring list \<Rightarrow> int \<Rightarrow> jsstring \<Rightarrow> jsstring list" where
  "appendAt linesArray i s =
     (if i < 0 then linesArray
      else if nat i < length linesArray then linesArray[nat i := linesArray ! nat i @ s]
      else linesArray @ replicate (nat i - length linesArray) [] @ [js ''undefined'' @ s])"

datatype error = Error jsstring

text \<open>
  \<open>textToAppend\<close> has the type \<open>string | any[]\<close> in the source; every caller passes a
  string, and that is what is modelled.
\<close>

definition writeLineToListEnd :: "jsstring \<Rightarrow> jsstring \<Rightarrow> jsstring \<Rightarrow> error + jsstring" where
  "writeLineToListEnd initialFileContent targetListHeading textToAppend =
     (if length textToAppend = 0 then Inr initialFileContent
      else if targetListHeading = [] then
        Inl (Error (js ''Cannot move line to list as empty target list heading was supplied''))
      else
        (let linesArray = splitNewline initialFileContent;
             insertionLine = indexOf linesArray targetListHeading + 1;
             insertionLine = advance (drop (nat insertionLine) linesArray) insertionLine
         in Inr (joinNewline (appendAt linesArray (insertionLine - 1) (NEWLINE @ textToAppend)))))"

subsection \<open>Tasks and the dispatcher\<close>

text \<open>
  Modelled from the spec: the enum \<open>StatusType\<close> of src/Statuses/StatusConfiguration.ts
  is not among the sources. The spec and the tests name TODO, IN_PROGRESS, DONE and
  CANCELLED, and the spec says that there are more; NON_TASK and EMPTY stand for those.
  The code under study only compares a type with DONE and two types with each other.
\<close>

datatype StatusType = TODO | DONE | IN_PROGRESS | CANCELLED | NON_TASK | EMPTY

record Status =
  symbol :: jsstring
  type :: StatusType

text \<open>
  The fields of a \<open>Task\<close> that the code reads. \<open>toFileLineString\<close> is a method of the
  class (src/Task/Task.ts, not among the sources); the record holds the line it returns.
\<close>

record Task =
  status :: Status
  description :: jsstring
  path :: jsstring
  toFileLineString :: jsstring

text \<open>
  Tasks are objects, and \<^verbatim>\<open>task !== changedStatusTask\<close> compares object identity, not
  contents. A task value of the program is therefore a reference, and the heap gives the
  object behind it. The code never writes to a task.
\<close>

type_synonym ref = nat
type_synonym heap = "ref \<Rightarrow> Task"

definition returnWithoutCompletedInstance :: "ref list \<Rightarrow> ref \<Rightarrow> ref list" where
  "returnWithoutCompletedInstance tasks changedStatusTask =
     filter (\<lambda>task. task \<noteq> changedStatusTask) tasks"

text \<open>
  The injected \<open>fileWriter\<close> takes a path and a content updater and returns nothing; what
  it does is an effect on the world outside, of a type \<open>'w\<close> the dispatcher knows nothing
  about. An updater may throw (\<open>writeLineToListEnd\<close> does, on an empty heading).
  \<open>appendToEndOfFile\<close> (src/lib/FileWriter.ts) is not among the sources and is a
  parameter. The diagnostic \<open>console.log\<close> of the last branch is not modelled. The
  path and the file writer have default values in the source (the archive note of the
  manual tests, and \<open>updateFileContentEventually\<close>, which works on the vault of the
  host application); here the caller always passes them.
\<close>

type_synonym updater = "jsstring \<Rightarrow> error + jsstring"
type_synonym 'w fileWriter = "jsstring \<Rightarrow> updater \<Rightarrow> 'w \<Rightarrow> 'w"

definition handleOnCompletion ::
  "(jsstring \<Rightarrow> jsstring \<Rightarrow> jsstring) \<Rightarrow> heap \<Rightarrow> ref \<Rightarrow> ref list \<Rightarrow> jsstring \<Rightarrow> 'w fileWriter
     \<Rightarrow> 'w \<Rightarrow> ref list \<times> 'w" where
  "handleOnCompletion appendToEndOfFile h task tasks toLogFilePath fileWriter w =
     (let tasksArrayLength = length tasks in
      if tasksArrayLength = 0 then (tasks, w)
      else
        (let startStatus = status (h task);
             changedStatusTask = tasks ! (tasksArrayLength - 1);
             endStatus = status (h changedStatusTask);
             ocTrigger = js '' '' @ checkeredFlag @ js '' '';
             taskString = description (h changedStatusTask)
         in
           if \<not> js_includes taskString ocTrigger \<or> type endStatus \<noteq> DONE
              \<or> type endStatus = type startStatus
           then (tasks, w)
           else if js_includes taskString (checkeredFlag @ js '' Delete'')
           then (returnWithoutCompletedInstance tasks changedStatusTask, w)
           else
             (let changedStatusTaskLine = toFileLineString (h changedStatusTask);
                  textToWrite = adjustLineForArchival changedStatusTaskLine
              in
                if js_includes taskString (checkeredFlag @ js '' ToLogFile'')
                then (returnWithoutCompletedInstance tasks changedStatusTask,
                      fileWriter toLogFilePath
                        (\<lambda>data. Inr (appendToEndOfFile data textToWrite)) w)
                else if js_includes taskString (checkeredFlag @ js '' ToLogList'')
                then (returnWithoutCompletedInstance tasks changedStatusTask,
                      fileWriter (path (h changedStatusTask))
                        (\<lambda>data. writeLineToListEnd data
                           (js ''## Archived Tasks - Appended'') textToWrite) w)
                else if js_includes taskString (checkeredFlag @ js '' EndOfList'')
                then (returnWithoutCompletedInstance tasks changedStatusTask,
                      fileWriter (path (h changedStatusTask))
                        (\<lambda>data. writeLineToListEnd data
                           (js ''## Archived Tasks - Appended'') textToWrite) w)
                else (tasks, w))))"

text \<open>
  The test double of the test suite (\<open>mockFileWriter\<close>): the world is the list of the
  calls received so far.
\<close>

definition mockFileWriter :: "(jsstring \<times> updater) list fileWriter" where
  "mockFileWriter filePath fileContentUpdater calls = calls @ [(filePath, fileContentUpdater)]"

text \<open>
  Modelled from the spec: \<open>appendToEndOfFile\<close> of src/lib/FileWriter.ts is not among the
  sources. The spec (4.2) describes the transform of the ToLogFile action as one that
  "appends the line plus a trailing newline to the end of existing content". (The test
  suite shows one behaviour more that these words do not cover: content that does not
  end in a newline gets one before the line.) The dispatcher does not use this
  definition; it takes the function as a parameter.
\<close>

definition appendToEndOfFile :: "jsstring \<Rightarrow> jsstring \<Rightarrow> jsstring" where
  "appendToEndOfFile data textToAppend = data @ textToAppend @ NEWLINE"

text \<open>
  The ToLogList action in the words of the spec (4.2), for comparison with the branches
  of the dispatcher: compute the normalized line; invoke the mutator against the changed
  task's own originating file path with a transform that inserts the line at the end of
  the list section with the heading literal; remove the changed task from the successor
  list.
\<close>

definition toLogListAction :: "heap \<Rightarrow> ref list \<Rightarrow> 'w fileWriter \<Rightarrow> 'w \<Rightarrow> ref list \<times> 'w" where
  "toLogListAction h tasks fileWriter w =
     (filter (\<lambda>task. task \<noteq> last tasks) tasks,
      fileWriter (path (h (last tasks)))
        (\<lambda>data. writeLineToListEnd data (js ''## Archived Tasks - Appended'')
           (adjustLineForArchival (toFileLineString (h (last tasks))))) w)"

text \<open>
  A fixture in the manner of the test suite (\<open>fromLine\<close> with path \<open>anything.md\<close>, then
  a change to the DONE status): object 2 is the completed instance, every other object
  (0 the original task, 1 the next occurrence of a recurring task) is still to do.
\<close>

definition fixtureHeap :: "jsstring \<Rightarrow> heap" where
  "fixtureHeap d r =
     (if r = 2 then
        \<lparr>status = \<lparr>symbol = js ''x'', type = DONE\<rparr>, description = d,
         path = js ''anything.md'', toFileLineString = js ''- [x] '' @ d\<rparr>
      else
        \<lparr>status = \<lparr>symbol = js '' '', type = TODO\<rparr>, description = d,
         path = js ''anything.md'', toFileLineString = js ''- [ ] '' @ d\<rparr>)"

text \<open>
  A second fixture: the completed instance (object 2) of a task that sits, indented, in
  a callout nested in a block quote. \<open>toFileLineString\<close> starts with the indentation of
  the task, quote markers included.
\<close>

definition calloutFixtureHeap :: heap where
  "calloutFixtureHeap r =
     (if r = 2 then
        \<lparr>status = \<lparr>symbol = js ''x'', type = DONE\<rparr>,
         description = js ''T '' @ checkeredFlag @ js '' ToLogFile'',
         path = js ''anything.md'',
         toFileLineString = js ''> >    - [x] T '' @ checkeredFlag @ js '' ToLogFile''\<rparr>
      else
        \<lparr>status = \<lparr>symbol = js '' '', type = TODO\<rparr>,
         description = js ''T '' @ checkeredFlag @ js '' ToLogFile'',
         path = js ''anything.md'',
         toFileLineString = js ''> >    - [ ] T '' @ checkeredFlag @ js '' ToLogFile''\<rparr>)"

section \<open>Properties\<close>

subsection \<open>Strings, lines and indices\<close>

lemma startsWith_iff: "startsWith s sub \<longleftrightarrow> (\<exists>q. s = sub @ q)"
  unfolding startsWith_def
  by (metis append_eq_conv_conj append_take_drop_id)

lemma js_includes_iff: "js_includes s sub \<longleftrightarrow> (\<exists>p q. s = p @ sub @ q)"
proof (induction s)
  case Nil
  then show ?case by auto
next
  case (Cons c cs)
  show ?case
  proof
    assume "js_includes (c # cs) sub"
    then consider "startsWith (c # cs) sub" | "js_includes cs sub" by auto
    then show "\<exists>p q. c # cs = p @ sub @ q"
    proof cases
      case 1
      then obtain q where "c # cs = sub @ q" by (auto simp: startsWith_iff)
      then have "c # cs = [] @ sub @ q" by simp
      then show ?thesis by blast
    next
      case 2
      then obtain p q where "cs = p @ sub @ q" using Cons.IH by auto
      then have "c # cs = (c # p) @ sub @ q" by simp
      then show ?thesis by blast
    qed
  next
    assume "\<exists>p q. c # cs = p @ sub @ q"
    then obtain p q where pq: "c # cs = p @ sub @ q" by blast
    show "js_includes (c # cs) sub"
    proof (cases p)
      case Nil
      with pq have "startsWith (c # cs) sub" unfolding startsWith_iff by auto
      then show ?thesis by simp
    next
      case (Cons a p')
      with pq have "cs = p' @ sub @ q" by simp
      then show ?thesis using Cons.IH by auto
    qed
  qed
qed

lemma splitNewline_not_Nil: "splitNewline s \<noteq> []"
  by (induction s) (auto split: list.splits)

lemma joinNewline_Cons: "ls \<noteq> [] \<Longrightarrow> joinNewline (l # ls) = l @ NEWLINE @ joinNewline ls"
  by (cases ls) auto

lemma joinNewline_splitNewline: "joinNewline (splitNewline s) = s"
proof (induction s)
  case Nil
  then show ?case by simp
next
  case (Cons c cs)
  obtain l ls where sp: "splitNewline cs = l # ls"
    using splitNewline_not_Nil by (cases "splitNewline cs") auto
  show ?case
  proof (cases "c = 0x000A")
    case True
    then show ?thesis using Cons sp by (simp add: NEWLINE_def)
  next
    case False
    then show ?thesis using Cons sp by (cases ls) auto
  qed
qed

lemma splitNewline_lines: "l \<in> set (splitNewline s) \<Longrightarrow> 0x000A \<notin> set l"
proof (induction s arbitrary: l)
  case Nil
  then show ?case by simp
next
  case (Cons c cs)
  obtain l' ls where sp: "splitNewline cs = l' # ls"
    using splitNewline_not_Nil by (cases "splitNewline cs") auto
  show ?case
  proof (cases "c = 0x000A")
    case True
    then show ?thesis using Cons by auto
  next
    case False
    then show ?thesis using Cons sp by auto
  qed
qed

lemma splitNewline_append:
  "0x000A \<notin> set l \<Longrightarrow> splitNewline (l @ 0x000A # s) = l # splitNewline s"
  by (induction l) auto

lemma splitNewline_no_newline: "0x000A \<notin> set l \<Longrightarrow> splitNewline l = [l]"
  by (induction l) auto

lemma splitNewline_joinNewline:
  "ls \<noteq> [] \<Longrightarrow> (\<And>l. l \<in> set ls \<Longrightarrow> 0x000A \<notin> set l) \<Longrightarrow> splitNewline (joinNewline ls) = ls"
proof (induction ls rule: joinNewline.induct)
  case 1
  then show ?case by simp
next
  case (2 l)
  then show ?case by (simp add: splitNewline_no_newline)
next
  case (3 l v va)
  then show ?case by (simp add: NEWLINE_def splitNewline_append)
qed

lemma indexOf_ge: "- 1 \<le> indexOf xs x"
  by (induction xs) (auto simp: Let_def)

lemma indexOf_absent: "indexOf xs x = - 1 \<longleftrightarrow> x \<notin> set xs"
proof (induction xs)
  case Nil
  then show ?case by simp
next
  case (Cons y ys)
  then show ?case using indexOf_ge[of ys x] by (auto simp: Let_def)
qed

lemma indexOf_present:
  "x \<in> set xs \<Longrightarrow>
     \<exists>before after. xs = before @ x # after \<and> x \<notin> set before
        \<and> indexOf xs x = int (length before)"
proof (induction xs)
  case Nil
  then show ?case by simp
next
  case (Cons y ys)
  show ?case
  proof (cases "y = x")
    case True
    then have "y # ys = [] @ x # ys \<and> x \<notin> set [] \<and> indexOf (y # ys) x = int (length ([]::'a list))"
      by simp
    then show ?thesis by blast
  next
    case False
    with Cons obtain before after where
      ba: "ys = before @ x # after" "x \<notin> set before" "indexOf ys x = int (length before)"
      by auto
    from False ba have "y # ys = (y # before) @ x # after \<and> x \<notin> set (y # before)
        \<and> indexOf (y # ys) x = int (length (y # before))"
      by (auto simp: Let_def)
    then show ?thesis by blast
  qed
qed

lemma advance_takeWhile:
  "advance ls i = i + int (length (takeWhile test_TASK_REGEX ls))"
  by (induction ls arbitrary: i) (auto simp: search_TASK_REGEX_def)

lemma joinNewline_Cons_concat: "joinNewline (l # ls) = l @ concat (map ((@) NEWLINE) ls)"
  by (induction ls arbitrary: l) auto

lemma joinNewline_insert:
  "joinNewline (xs @ (l @ NEWLINE @ t) # ys) = joinNewline (xs @ l # t # ys)"
  by (cases xs) (simp_all add: joinNewline_Cons_concat del: joinNewline.simps)

subsection \<open>The normalizer and the list-item pattern\<close>

lemma js_quote: "js ''> '' = [0x003E, 0x0020]"
  by (simp add: js_def)

lemma js_close: "js '']'' = [0x005D]"
  by (simp add: js_def)

lemma js_dash: "js ''- ['' = [0x002D, 0x0020, 0x005B]"
  by (simp add: js_def)

lemma removeCalloutPrefixes_strip:
  "removeCalloutPrefixes (js ''> '' @ s) = removeCalloutPrefixes s"
  by (subst removeCalloutPrefixes.simps) (simp add: js_def)

lemma removeCalloutPrefixes_stop:
  "take 2 s \<noteq> js ''> '' \<Longrightarrow> removeCalloutPrefixes s = s"
  by (subst removeCalloutPrefixes.simps) simp

lemma removeCalloutPrefixes_no_prefix:
  "take 2 (removeCalloutPrefixes s) \<noteq> js ''> ''"
proof (induction s rule: removeCalloutPrefixes.induct)
  case (1 lineOfText)
  show ?case
  proof (cases "take 2 lineOfText = js ''> ''")
    case True
    with 1 show ?thesis by (subst removeCalloutPrefixes.simps) simp
  next
    case False
    then show ?thesis by (simp add: removeCalloutPrefixes_stop)
  qed
qed

lemma removeCalloutPrefixes_idempotent:
  "removeCalloutPrefixes (removeCalloutPrefixes s) = removeCalloutPrefixes s"
  by (rule removeCalloutPrefixes_stop) (rule removeCalloutPrefixes_no_prefix)

lemma removeCalloutPrefixes_decompose:
  "\<exists>n. s = concat (replicate n (js ''> '')) @ removeCalloutPrefixes s"
proof (induction s rule: removeCalloutPrefixes.induct)
  case (1 lineOfText)
  show ?case
  proof (cases "take 2 lineOfText = js ''> ''")
    case True
    then have l: "lineOfText = js ''> '' @ drop 2 lineOfText"
      by (metis append_take_drop_id)
    from 1 True obtain n where
      n: "drop 2 lineOfText = concat (replicate n (js ''> '')) @ removeCalloutPrefixes (drop 2 lineOfText)"
      by blast
    have r: "removeCalloutPrefixes lineOfText = removeCalloutPrefixes (drop 2 lineOfText)"
      using True by (subst removeCalloutPrefixes.simps) simp
    have "lineOfText = concat (replicate (Suc n) (js ''> '')) @ removeCalloutPrefixes lineOfText"
      unfolding r using l n by (metis append.assoc concat.simps(2) replicate_Suc)
    then show ?thesis by blast
  next
    case False
    then have "lineOfText = concat (replicate 0 (js ''> '')) @ removeCalloutPrefixes lineOfText"
      by (simp add: removeCalloutPrefixes_stop)
    then show ?thesis by blast
  qed
qed

lemma removeCalloutPrefixes_replicate:
  "removeCalloutPrefixes (concat (replicate n (js ''> '')) @ s) = removeCalloutPrefixes s"
  by (induction n) (simp_all add: removeCalloutPrefixes_strip)

lemma dropWhile_spaces_decompose:
  "\<exists>m. s = replicate m (0x0020::code_unit) @ dropWhile (\<lambda>c. c = 0x0020) s"
proof (induction s)
  case Nil
  then show ?case by simp
next
  case (Cons c s)
  show ?case
  proof (cases "c = 0x0020")
    case True
    from Cons obtain m where "s = replicate m 0x0020 @ dropWhile (\<lambda>c. c = 0x0020) s" by blast
    then have "c # s = replicate (Suc m) 0x0020 @ dropWhile (\<lambda>c. c = 0x0020) (c # s)"
      using True by simp
    then show ?thesis by blast
  next
    case False
    then have "c # s = replicate 0 0x0020 @ dropWhile (\<lambda>c. c = 0x0020) (c # s)" by simp
    then show ?thesis by blast
  qed
qed

lemma dropWhile_spaces_replicate:
  "dropWhile (\<lambda>c. c = 0x0020) (replicate m (0x0020::code_unit) @ js ''- ['' @ t) = js ''- ['' @ t"
  by (induction m) (simp_all add: js_dash)

lemma case_five:
  "(case xs of a # b # c # d # e # rest \<Rightarrow> P a b c d e rest | _ \<Rightarrow> False)
     \<Longrightarrow> \<exists>a b c d e rest. xs = a # b # c # d # e # rest \<and> P a b c d e rest"
  by (auto split: list.splits)

lemma test_TASK_REGEX_iff:
  "test_TASK_REGEX thisLine \<longleftrightarrow>
     (\<exists>n m d rest. thisLine = concat (replicate n (js ''> '')) @ replicate m 0x0020
          @ js ''- ['' @ [d] @ js '']'' @ rest \<and> \<not> isLineTerminator d)"
proof
  assume t: "test_TASK_REGEX thisLine"
  obtain n where n: "thisLine = concat (replicate n (js ''> '')) @ removeCalloutPrefixes thisLine"
    using removeCalloutPrefixes_decompose by blast
  obtain m where m: "removeCalloutPrefixes thisLine
      = replicate m 0x0020 @ dropWhile (\<lambda>c. c = 0x0020) (removeCalloutPrefixes thisLine)"
    using dropWhile_spaces_decompose by blast
  from t have "\<exists>a b c d e rest.
      dropWhile (\<lambda>c. c = 0x0020) (removeCalloutPrefixes thisLine) = a # b # c # d # e # rest
      \<and> [a, b, c] = js ''- ['' \<and> \<not> isLineTerminator d \<and> [e] = js '']''"
    unfolding test_TASK_REGEX_def by (rule case_five)
  then obtain a b c d e rest where
    x: "dropWhile (\<lambda>c. c = 0x0020) (removeCalloutPrefixes thisLine) = a # b # c # d # e # rest"
    and abc: "[a, b, c] = js ''- [''" and e: "[e] = js '']''" and "\<not> isLineTerminator d"
    by blast
  have "a # b # c # d # e # rest = [a, b, c] @ [d] @ [e] @ rest"
    by simp
  then have d: "dropWhile (\<lambda>c. c = 0x0020) (removeCalloutPrefixes thisLine) = js ''- ['' @ [d] @ js '']'' @ rest"
      "\<not> isLineTerminator d"
    using x \<open>\<not> isLineTerminator d\<close> unfolding abc e by simp_all
  note n
  also note m
  also note d(1)
  finally have "thisLine = concat (replicate n (js ''> '')) @ replicate m 0x0020
          @ js ''- ['' @ [d] @ js '']'' @ rest" .
  with d(2) show "\<exists>n m d rest. thisLine = concat (replicate n (js ''> '')) @ replicate m 0x0020
          @ js ''- ['' @ [d] @ js '']'' @ rest \<and> \<not> isLineTerminator d"
    by blast
next
  assume "\<exists>n m d rest. thisLine = concat (replicate n (js ''> '')) @ replicate m 0x0020
          @ js ''- ['' @ [d] @ js '']'' @ rest \<and> \<not> isLineTerminator d"
  then obtain n m d rest where
    l: "thisLine = concat (replicate n (js ''> '')) @ replicate m 0x0020
          @ js ''- ['' @ [d] @ js '']'' @ rest" and d: "\<not> isLineTerminator d"
    by blast
  have "hd (replicate m (0x0020::code_unit) @ js ''- ['' @ [d] @ js '']'' @ rest) \<noteq> 0x003E"
    by (cases m) (simp_all add: js_dash)
  then have ns: "take 2 (replicate m (0x0020::code_unit) @ js ''- ['' @ [d] @ js '']'' @ rest) \<noteq> js ''> ''"
    unfolding js_quote by (cases "replicate m (0x0020::code_unit) @ js ''- ['' @ [d] @ js '']'' @ rest") auto
  have "removeCalloutPrefixes thisLine
      = removeCalloutPrefixes (replicate m 0x0020 @ js ''- ['' @ [d] @ js '']'' @ rest)"
    unfolding l by (rule removeCalloutPrefixes_replicate)
  also have "\<dots> = replicate m 0x0020 @ js ''- ['' @ [d] @ js '']'' @ rest"
    using ns by (rule removeCalloutPrefixes_stop)
  finally have "removeCalloutPrefixes thisLine = replicate m 0x0020 @ js ''- ['' @ [d] @ js '']'' @ rest" .
  then have "dropWhile (\<lambda>c. c = 0x0020) (removeCalloutPrefixes thisLine) = js ''- ['' @ [d] @ js '']'' @ rest"
    by (simp only: dropWhile_spaces_replicate)
  then show "test_TASK_REGEX thisLine"
    using d by (simp add: test_TASK_REGEX_def js_dash js_close)
qed

lemma adjustLineForArchival_no_quote:
  "take 2 (adjustLineForArchival s) \<noteq> js ''> ''"
  unfolding adjustLineForArchival_def by (rule removeCalloutPrefixes_no_prefix)

subsection \<open>Where the line is inserted\<close>

lemma indexOf_first:
  "x \<notin> set before \<Longrightarrow> indexOf (before @ x # after) x = int (length before)"
  by (induction before) (auto simp: Let_def)

lemma appendAt_last:
  "appendAt ((bp @ [lp]) @ post) (int (length (bp @ [lp])) - 1) s = bp @ (lp @ s) # post"
  by (simp add: appendAt_def nth_append)

lemma writeLineToListEnd_found:
  assumes "textToAppend \<noteq> []" and "targetListHeading \<noteq> []"
    and lines: "splitNewline initialFileContent = before @ targetListHeading # rest"
    and first: "targetListHeading \<notin> set before"
  shows "writeLineToListEnd initialFileContent targetListHeading textToAppend =
           Inr (joinNewline (before @ targetListHeading # takeWhile test_TASK_REGEX rest
                  @ textToAppend # dropWhile test_TASK_REGEX rest))"
proof -
  let ?tw = "takeWhile test_TASK_REGEX rest" and ?dw = "dropWhile test_TASK_REGEX rest"
  let ?pre = "before @ targetListHeading # ?tw"
  obtain bp lp where pre: "?pre = bp @ [lp]"
    by (metis append_is_Nil_conv list.distinct(1) rev_exhaust)
  have idx: "indexOf (before @ targetListHeading # rest) targetListHeading = int (length before)"
    using first by (rule indexOf_first)
  have lines': "before @ targetListHeading # rest = (bp @ [lp]) @ ?dw"
    using pre by (metis append.assoc append_Cons takeWhile_dropWhile_id)
  have len: "int (length before) + 1 + int (length ?tw) = int (length (bp @ [lp]))"
    using arg_cong[OF pre, of length] by simp
  have n: "nat (int (length before) + 1) = Suc (length before)"
    by simp
  have pos: "int (length before) + int (length ?tw) = int (length (bp @ [lp])) - 1"
    using len by simp
  have "appendAt (before @ targetListHeading # rest)
          (int (length before) + int (length ?tw)) (NEWLINE @ textToAppend)
        = bp @ (lp @ NEWLINE @ textToAppend) # ?dw"
    unfolding lines' pos by (rule appendAt_last)
  also have "joinNewline \<dots> = joinNewline (bp @ lp # textToAppend # ?dw)"
    by (rule joinNewline_insert)
  also have "bp @ lp # textToAppend # ?dw = ?pre @ textToAppend # ?dw"
    using pre by simp
  finally have ins: "joinNewline (appendAt (before @ targetListHeading # rest)
          (int (length before) + int (length ?tw)) (NEWLINE @ textToAppend))
        = joinNewline (?pre @ textToAppend # ?dw)" .
  have "writeLineToListEnd initialFileContent targetListHeading textToAppend =
          Inr (joinNewline (appendAt (before @ targetListHeading # rest)
            (int (length before) + int (length ?tw)) (NEWLINE @ textToAppend)))"
    using assms(1,2) n
    by (simp add: writeLineToListEnd_def lines idx advance_takeWhile Let_def)
  then show ?thesis
    unfolding ins by simp
qed

lemma dropWhile_head: "dropWhile P xs = [] \<or> \<not> P (hd (dropWhile P xs))"
  by (metis hd_dropWhile)

lemma writeLineToListEnd_absent:
  assumes "textToAppend \<noteq> []" and "targetListHeading \<noteq> []"
    and absent: "targetListHeading \<notin> set (splitNewline initialFileContent)"
  shows "writeLineToListEnd initialFileContent targetListHeading textToAppend =
           Inr (if test_TASK_REGEX (hd (splitNewline initialFileContent))
                then joinNewline (takeWhile test_TASK_REGEX (splitNewline initialFileContent)
                       @ textToAppend # dropWhile test_TASK_REGEX (splitNewline initialFileContent))
                else initialFileContent)"
proof -
  let ?ls = "splitNewline initialFileContent"
  let ?tw = "takeWhile test_TASK_REGEX ?ls" and ?dw = "dropWhile test_TASK_REGEX ?ls"
  have idx: "indexOf ?ls targetListHeading = - 1"
    using absent by (simp add: indexOf_absent)
  have w: "writeLineToListEnd initialFileContent targetListHeading textToAppend =
          Inr (joinNewline (appendAt ?ls (int (length ?tw) - 1) (NEWLINE @ textToAppend)))"
    using assms(1,2) by (simp add: writeLineToListEnd_def idx advance_takeWhile Let_def)
  obtain l ls' where ls: "?ls = l # ls'"
    using splitNewline_not_Nil by (cases ?ls) auto
  show ?thesis
  proof (cases "test_TASK_REGEX (hd ?ls)")
    case False
    then have "?tw = []"
      using ls by simp
    then have "appendAt ?ls (int (length ?tw) - 1) (NEWLINE @ textToAppend) = ?ls"
      by (simp add: appendAt_def)
    then show ?thesis
      using False w by (simp add: joinNewline_splitNewline)
  next
    case True
    then have "?tw \<noteq> []"
      using ls by simp
    then obtain bp lp where tw: "?tw = bp @ [lp]"
      by (metis rev_exhaust)
    have lines: "?ls = (bp @ [lp]) @ ?dw"
      using tw by (metis takeWhile_dropWhile_id)
    have len: "int (length ?tw) = int (length (bp @ [lp]))"
      using tw by simp
    have "appendAt ?ls (int (length ?tw) - 1) (NEWLINE @ textToAppend)
        = appendAt ((bp @ [lp]) @ ?dw) (int (length (bp @ [lp])) - 1) (NEWLINE @ textToAppend)"
      using lines len by metis
    also have "\<dots> = bp @ (lp @ NEWLINE @ textToAppend) # ?dw"
      by (rule appendAt_last)
    also have "joinNewline \<dots> = joinNewline (bp @ lp # textToAppend # ?dw)"
      by (rule joinNewline_insert)
    also have "bp @ lp # textToAppend # ?dw = ?tw @ textToAppend # ?dw"
      using tw by simp
    finally have "joinNewline (appendAt ?ls (int (length ?tw) - 1) (NEWLINE @ textToAppend))
        = joinNewline (?tw @ textToAppend # ?dw)" .
    then show ?thesis
      using True w by simp
  qed
qed

subsection \<open>The branches of the dispatcher\<close>

lemma nth_last: "tasks \<noteq> [] \<Longrightarrow> tasks ! (length tasks - Suc 0) = last tasks"
  by (simp add: last_conv_nth)

lemma handleOnCompletion_closed:
  assumes "tasks = [] \<or> \<not> js_includes (description (h (last tasks))) (js '' '' @ checkeredFlag @ js '' '')
     \<or> type (status (h (last tasks))) \<noteq> DONE
     \<or> type (status (h (last tasks))) = type (status (h task))"
  shows "handleOnCompletion A h task tasks p fw w = (tasks, w)"
proof (cases "tasks = []")
  case True
  then show ?thesis by (simp add: handleOnCompletion_def)
next
  case False
  with assms show ?thesis
    by (auto simp: handleOnCompletion_def Let_def nth_last)
qed

lemma handleOnCompletion_open:
  assumes "tasks \<noteq> []"
    and "js_includes (description (h (last tasks))) (js '' '' @ checkeredFlag @ js '' '')"
    and "type (status (h (last tasks))) = DONE"
    and "type (status (h task)) \<noteq> DONE"
  shows "handleOnCompletion A h task tasks p fw w =
     (if js_includes (description (h (last tasks))) (checkeredFlag @ js '' Delete'')
      then (filter (\<lambda>t. t \<noteq> last tasks) tasks, w)
      else if js_includes (description (h (last tasks))) (checkeredFlag @ js '' ToLogFile'')
      then (filter (\<lambda>t. t \<noteq> last tasks) tasks,
            fw p (\<lambda>data. Inr (A data (adjustLineForArchival (toFileLineString (h (last tasks)))))) w)
      else if js_includes (description (h (last tasks))) (checkeredFlag @ js '' ToLogList'')
             \<or> js_includes (description (h (last tasks))) (checkeredFlag @ js '' EndOfList'')
      then (filter (\<lambda>t. t \<noteq> last tasks) tasks,
            fw (path (h (last tasks)))
              (\<lambda>data. writeLineToListEnd data (js ''## Archived Tasks - Appended'')
                 (adjustLineForArchival (toFileLineString (h (last tasks))))) w)
      else (tasks, w))"
  using assms
  by (simp add: handleOnCompletion_def Let_def nth_last returnWithoutCompletedInstance_def)

text \<open>
  The ToLogFile branch and its neighbours, for every \<open>appendToEndOfFile\<close> and every file
  writer: on the ToLogFile branch the list is returned without the changed task and
  the writer is called once, with the log-file path and a transform that hands the
  content and the line returned by \<open>adjustLineForArchival\<close> to \<open>appendToEndOfFile\<close>; the
  writer is not called on the Delete branch, for an unknown or empty action name, for an
  empty list, or when the new status type is not DONE.
\<close>

lemma handleOnCompletion_ToLogFile_call:
  "(tasks \<noteq> []
      \<and> js_includes (description (h (last tasks))) (js '' '' @ checkeredFlag @ js '' '')
      \<and> type (status (h (last tasks))) = DONE
      \<and> type (status (h task)) \<noteq> DONE
    \<longrightarrow>
      (\<not> js_includes (description (h (last tasks))) (checkeredFlag @ js '' Delete'')
         \<and> js_includes (description (h (last tasks))) (checkeredFlag @ js '' ToLogFile'')
       \<longrightarrow>
         handleOnCompletion A h task tasks toLogFilePath fw w =
           (filter (\<lambda>t. t \<noteq> last tasks) tasks,
            fw toLogFilePath
              (\<lambda>data. Inr (A data (adjustLineForArchival (toFileLineString (h (last tasks)))))) w)
         \<and> fst (handleOnCompletion appendToEndOfFile h task tasks toLogFilePath mockFileWriter [])
             = filter (\<lambda>t. t \<noteq> last tasks) tasks
         \<and> (\<exists>u. snd (handleOnCompletion appendToEndOfFile h task tasks toLogFilePath mockFileWriter [])
                  = [(toLogFilePath, u)]
              \<and> (\<forall>data. u data =
                    Inr (data @ adjustLineForArchival (toFileLineString (h (last tasks))) @ NEWLINE))
              \<and> u [] = Inr (adjustLineForArchival (toFileLineString (h (last tasks))) @ NEWLINE)))
      \<and> (js_includes (description (h (last tasks))) (checkeredFlag @ js '' Delete'')
          \<longrightarrow> snd (handleOnCompletion A h task tasks toLogFilePath fw w) = w
            \<and> snd (handleOnCompletion A h task tasks toLogFilePath mockFileWriter []) = [])
      \<and> (\<not> js_includes (description (h (last tasks))) (checkeredFlag @ js '' Delete'')
         \<and> \<not> js_includes (description (h (last tasks))) (checkeredFlag @ js '' ToLogFile'')
         \<and> \<not> js_includes (description (h (last tasks))) (checkeredFlag @ js '' ToLogList'')
         \<and> \<not> js_includes (description (h (last tasks))) (checkeredFlag @ js '' EndOfList'')
          \<longrightarrow> handleOnCompletion A h task tasks toLogFilePath fw w = (tasks, w)
            \<and> snd (handleOnCompletion A h task tasks toLogFilePath mockFileWriter []) = []))
   \<and> (tasks = [] \<or> type (status (h (last tasks))) \<noteq> DONE
      \<longrightarrow> handleOnCompletion A h task tasks toLogFilePath fw w = (tasks, w)
        \<and> snd (handleOnCompletion A h task tasks toLogFilePath mockFileWriter []) = [])"
proof (intro conjI impI)
  assume "tasks = [] \<or> type (status (h (last tasks))) \<noteq> DONE"
  then have c: "tasks = []
      \<or> \<not> js_includes (description (h (last tasks))) (js '' '' @ checkeredFlag @ js '' '')
      \<or> type (status (h (last tasks))) \<noteq> DONE
      \<or> type (status (h (last tasks))) = type (status (h task))"
    by blast
  show "handleOnCompletion A h task tasks toLogFilePath fw w = (tasks, w)"
    using c by (rule handleOnCompletion_closed)
  show "snd (handleOnCompletion A h task tasks toLogFilePath mockFileWriter []) = []"
    using c by (simp add: handleOnCompletion_closed)
next
  assume gate: "tasks \<noteq> []
      \<and> js_includes (description (h (last tasks))) (js '' '' @ checkeredFlag @ js '' '')
      \<and> type (status (h (last tasks))) = DONE
      \<and> type (status (h task)) \<noteq> DONE"
  note open_eq = handleOnCompletion_open
    [of tasks h task, OF conjunct1[OF gate] conjunct1[OF conjunct2[OF gate]]
       conjunct1[OF conjunct2[OF conjunct2[OF gate]]] conjunct2[OF conjunct2[OF conjunct2[OF gate]]]]
  {
    assume b: "\<not> js_includes (description (h (last tasks))) (checkeredFlag @ js '' Delete'')
         \<and> js_includes (description (h (last tasks))) (checkeredFlag @ js '' ToLogFile'')"
    show "handleOnCompletion A h task tasks toLogFilePath fw w =
           (filter (\<lambda>t. t \<noteq> last tasks) tasks,
            fw toLogFilePath
              (\<lambda>data. Inr (A data (adjustLineForArchival (toFileLineString (h (last tasks)))))) w)"
      using b by (simp add: open_eq)
    show "fst (handleOnCompletion appendToEndOfFile h task tasks toLogFilePath mockFileWriter [])
             = filter (\<lambda>t. t \<noteq> last tasks) tasks"
      using b by (simp add: open_eq)
    have "snd (handleOnCompletion appendToEndOfFile h task tasks toLogFilePath mockFileWriter [])
        = [(toLogFilePath, \<lambda>data. Inr (data @ adjustLineForArchival (toFileLineString (h (last tasks))) @ NEWLINE))]"
      using b by (simp add: open_eq mockFileWriter_def appendToEndOfFile_def)
    then show "\<exists>u. snd (handleOnCompletion appendToEndOfFile h task tasks toLogFilePath mockFileWriter [])
                  = [(toLogFilePath, u)]
              \<and> (\<forall>data. u data =
                    Inr (data @ adjustLineForArchival (toFileLineString (h (last tasks))) @ NEWLINE))
              \<and> u [] = Inr (adjustLineForArchival (toFileLineString (h (last tasks))) @ NEWLINE)"
      by simp
  }
  {
    assume b: "js_includes (description (h (last tasks))) (checkeredFlag @ js '' Delete'')"
    show "snd (handleOnCompletion A h task tasks toLogFilePath fw w) = w"
      using b by (simp add: open_eq)
    show "snd (handleOnCompletion A h task tasks toLogFilePath mockFileWriter []) = []"
      using b by (simp add: open_eq)
  }
  {
    assume b: "\<not> js_includes (description (h (last tasks))) (checkeredFlag @ js '' Delete'')
         \<and> \<not> js_includes (description (h (last tasks))) (checkeredFlag @ js '' ToLogFile'')
         \<and> \<not> js_includes (description (h (last tasks))) (checkeredFlag @ js '' ToLogList'')
         \<and> \<not> js_includes (description (h (last tasks))) (checkeredFlag @ js '' EndOfList'')"
    show "handleOnCompletion A h task tasks toLogFilePath fw w = (tasks, w)"
      using b by (simp add: open_eq)
    show "snd (handleOnCompletion A h task tasks toLogFilePath mockFileWriter []) = []"
      using b by (simp add: open_eq)
  }
qed

section \<open>The claims\<close>

subsection \<open>The transition gate\<close>

text \<open>
  Claim C1. \<open>handleOnCompletion\<close> returns the successor list unchanged, and leaves the
  world of the file writer as it was, when the list is empty, when the description of the
  last element does not contain the space-padded trigger, when the status type of the
  last element is not DONE, or when it equals the status type of the original task. The
  decision reads the trigger from the last element only: two runs that agree on the
  object of the last element and on the status type of the original task give the same
  result, whatever the description of the original task says.
\<close>

theorem handleOnCompletion_no_op_gate:
  "(tasks = []
      \<or> \<not> js_includes (description (h (last tasks))) (js '' '' @ checkeredFlag @ js '' '')
      \<or> type (status (h (last tasks))) \<noteq> DONE
      \<or> type (status (h (last tasks))) = type (status (h task))
    \<longrightarrow> handleOnCompletion A h task tasks p fw w = (tasks, w))
   \<and> (type (status (h' task')) = type (status (h task)) \<and> h' (last tasks) = h (last tasks)
    \<longrightarrow> handleOnCompletion A h' task' tasks p fw w = handleOnCompletion A h task tasks p fw w)"
proof (intro conjI impI)
  assume "tasks = []
      \<or> \<not> js_includes (description (h (last tasks))) (js '' '' @ checkeredFlag @ js '' '')
      \<or> type (status (h (last tasks))) \<noteq> DONE
      \<or> type (status (h (last tasks))) = type (status (h task))"
  then show "handleOnCompletion A h task tasks p fw w = (tasks, w)"
    by (rule handleOnCompletion_closed)
next
  assume same: "type (status (h' task')) = type (status (h task)) \<and> h' (last tasks) = h (last tasks)"
  show "handleOnCompletion A h' task' tasks p fw w = handleOnCompletion A h task tasks p fw w"
  proof (cases "tasks = []")
    case True
    then show ?thesis by (simp add: handleOnCompletion_def)
  next
    case False
    with same show ?thesis
      by (simp add: handleOnCompletion_def Let_def nth_last)
  qed
qed

theorem handleOnCompletion_no_op_gate_witness:
  "\<not> js_includes (description (fixtureHeap (js ''A recurring task with no trigger'') (last [1, 2])))
       (js '' '' @ checkeredFlag @ js '' '')
   \<and> handleOnCompletion (@) (fixtureHeap (js ''A recurring task with no trigger'')) 0 [1, 2]
        (js ''archive.md'') mockFileWriter [] = ([1, 2], [])
   \<and> type (status (((fixtureHeap (js ''A task with '' @ checkeredFlag @ js '' Delete''))
              (2 := fixtureHeap (js ''A recurring task with no trigger'') 2)) 0))
       = type (status (fixtureHeap (js ''A recurring task with no trigger'') 0))
   \<and> ((fixtureHeap (js ''A task with '' @ checkeredFlag @ js '' Delete''))
         (2 := fixtureHeap (js ''A recurring task with no trigger'') 2)) (last [1, 2])
       = fixtureHeap (js ''A recurring task with no trigger'') (last [1, 2])
   \<and> handleOnCompletion (@) ((fixtureHeap (js ''A task with '' @ checkeredFlag @ js '' Delete''))
              (2 := fixtureHeap (js ''A recurring task with no trigger'') 2)) 0 [1, 2]
        (js ''archive.md'') mockFileWriter []
       = handleOnCompletion (@) (fixtureHeap (js ''A recurring task with no trigger'')) 0 [1, 2]
        (js ''archive.md'') mockFileWriter []"
proof -
  have 1: "\<not> js_includes (description (fixtureHeap (js ''A recurring task with no trigger'') (last [1, 2])))
       (js '' '' @ checkeredFlag @ js '' '')"
    by code_simp
  have 2: "type (status (((fixtureHeap (js ''A task with '' @ checkeredFlag @ js '' Delete''))
              (2 := fixtureHeap (js ''A recurring task with no trigger'') 2)) 0))
       = type (status (fixtureHeap (js ''A recurring task with no trigger'') 0))"
    by (simp add: fixtureHeap_def)
  have 3: "((fixtureHeap (js ''A task with '' @ checkeredFlag @ js '' Delete''))
         (2 := fixtureHeap (js ''A recurring task with no trigger'') 2)) (last [1, 2])
       = fixtureHeap (js ''A recurring task with no trigger'') (last [1, 2])"
    by simp
  from 1 2 3 handleOnCompletion_no_op_gate
    [where tasks = "[1, 2]" and h = "fixtureHeap (js ''A recurring task with no trigger'')"
       and task = 0 and task' = 0 and A = "(@)" and p = "js ''archive.md''"
       and fw = mockFileWriter and w = "[]"
       and h' = "(fixtureHeap (js ''A task with '' @ checkeredFlag @ js '' Delete''))
              (2 := fixtureHeap (js ''A recurring task with no trigger'') 2)"]
  show ?thesis by blast
qed

subsection \<open>Delete\<close>

text \<open>
  Claim C2. When the gate is passed and the description of the last element contains
  the Delete trigger, \<open>handleOnCompletion\<close> returns the input list without the changed
  task, the other elements unchanged and in order, and does not call the file writer:
  the world is returned as it was, for every file writer. A one-element list gives the
  empty list. A recurring task gives two task objects, the next occurrence and the
  completed instance, and the result is the list without its last element; so it is
  for every list in which the changed object occurs only at the end (removal is by
  object identity, as \<open>filter\<close> with \<open>!==\<close> does it).
\<close>

theorem handleOnCompletion_Delete:
  assumes "tasks \<noteq> []"
    and "js_includes (description (h (last tasks))) (js '' '' @ checkeredFlag @ js '' '')"
    and "type (status (h (last tasks))) = DONE"
    and "type (status (h task)) \<noteq> DONE"
    and "js_includes (description (h (last tasks))) (checkeredFlag @ js '' Delete'')"
  shows "handleOnCompletion A h task tasks p fw w = (filter (\<lambda>t. t \<noteq> last tasks) tasks, w)
    \<and> (tasks = [a] \<longrightarrow> fst (handleOnCompletion A h task tasks p fw w) = [])
    \<and> (tasks = [a, b] \<and> a \<noteq> b \<longrightarrow> fst (handleOnCompletion A h task tasks p fw w) = [a])
    \<and> (last tasks \<notin> set (butlast tasks)
         \<longrightarrow> fst (handleOnCompletion A h task tasks p fw w) = butlast tasks)"
proof -
  have r: "handleOnCompletion A h task tasks p fw w = (filter (\<lambda>t. t \<noteq> last tasks) tasks, w)"
    using assms by (simp add: handleOnCompletion_open)
  have "filter (\<lambda>t. t \<noteq> last tasks) tasks = butlast tasks" if "last tasks \<notin> set (butlast tasks)"
  proof -
    have "tasks = butlast tasks @ [last tasks]"
      using assms(1) by simp
    then have "filter (\<lambda>t. t \<noteq> last tasks) tasks
        = filter (\<lambda>t. t \<noteq> last tasks) (butlast tasks) @ filter (\<lambda>t. t \<noteq> last tasks) [last tasks]"
      by (metis filter_append)
    also have "\<dots> = butlast tasks"
      using that by (auto simp: filter_id_conv)
    finally show ?thesis .
  qed
  with r show ?thesis by auto
qed

theorem handleOnCompletion_Delete_witness:
  "[1, 2] \<noteq> ([] :: ref list)
   \<and> js_includes (description (fixtureHeap (js ''A recurring task with '' @ checkeredFlag @ js '' Delete'') (last [1, 2])))
       (js '' '' @ checkeredFlag @ js '' '')
   \<and> type (status (fixtureHeap (js ''A recurring task with '' @ checkeredFlag @ js '' Delete'') (last [1, 2]))) = DONE
   \<and> type (status (fixtureHeap (js ''A recurring task with '' @ checkeredFlag @ js '' Delete'') 0)) \<noteq> DONE
   \<and> js_includes (description (fixtureHeap (js ''A recurring task with '' @ checkeredFlag @ js '' Delete'') (last [1, 2])))
       (checkeredFlag @ js '' Delete'')
   \<and> (1::ref) \<noteq> 2
   \<and> handleOnCompletion (@) (fixtureHeap (js ''A recurring task with '' @ checkeredFlag @ js '' Delete'')) 0 [1, 2]
        (js ''archive.md'') mockFileWriter [] = ([1], [])"
proof -
  let ?h = "fixtureHeap (js ''A recurring task with '' @ checkeredFlag @ js '' Delete'')"
  have 1: "[1, 2] \<noteq> ([] :: ref list)" by simp
  have 2: "js_includes (description (?h (last [1, 2]))) (js '' '' @ checkeredFlag @ js '' '')"
    by code_simp
  have 3: "type (status (?h (last [1, 2]))) = DONE"
    by (simp add: fixtureHeap_def)
  have 4: "type (status (?h 0)) \<noteq> DONE"
    by (simp add: fixtureHeap_def)
  have 5: "js_includes (description (?h (last [1, 2]))) (checkeredFlag @ js '' Delete'')"
    by code_simp
  have 6: "(1::ref) \<noteq> 2" by simp
  from handleOnCompletion_Delete[OF 1 2 3 4 5, where a = 1 and b = 2 and A = "(@)"
      and p = "js ''archive.md''" and fw = mockFileWriter and w = "[]"]
  have "handleOnCompletion (@) ?h 0 [1, 2] (js ''archive.md'') mockFileWriter [] = ([1], [])"
    by simp
  with 1 2 3 4 5 6 show ?thesis by blast
qed

subsection \<open>ToLogFile\<close>

text \<open>
  Claim C3 says that the ToLogFile action appends the normalized line of the completed
  task, followed by a newline, to the log. The call itself is as the claim says
  (\<open>handleOnCompletion_ToLogFile_call\<close>), but the line is the one that
  \<open>adjustLineForArchival\<close> returns, and for a task indented in a callout that line
  keeps its indentation (the defect of C7). Here the log is empty and receives the line
  with three leading spaces.
\<close>

theorem handleOnCompletion_ToLogFile_appends_indented_line:
  "fst (handleOnCompletion appendToEndOfFile calloutFixtureHeap 0 [2] (js ''archive.md'')
          mockFileWriter []) = []
   \<and> map (\<lambda>(filePath, fileContentUpdater). (filePath, fileContentUpdater []))
        (snd (handleOnCompletion appendToEndOfFile calloutFixtureHeap 0 [2] (js ''archive.md'')
               mockFileWriter []))
       = [(js ''archive.md'',
           Inr (js ''   - [x] T '' @ checkeredFlag @ js '' ToLogFile'' @ NEWLINE))]
   \<and> adjustLineForArchival (toFileLineString (calloutFixtureHeap 2))
       = js ''   - [x] T '' @ checkeredFlag @ js '' ToLogFile''
   \<and> isWhiteSpace (hd (adjustLineForArchival (toFileLineString (calloutFixtureHeap 2))))"
  by code_simp

text \<open>
  The input passes the gate and takes the ToLogFile branch, and the writer is called
  once.
\<close>

theorem handleOnCompletion_ToLogFile_appends_indented_line_witness:
  "js_includes (description (calloutFixtureHeap (last [2]))) (js '' '' @ checkeredFlag @ js '' '')
   \<and> type (status (calloutFixtureHeap (last [2]))) = DONE
   \<and> type (status (calloutFixtureHeap 0)) \<noteq> DONE
   \<and> \<not> js_includes (description (calloutFixtureHeap (last [2]))) (checkeredFlag @ js '' Delete'')
   \<and> js_includes (description (calloutFixtureHeap (last [2]))) (checkeredFlag @ js '' ToLogFile'')
   \<and> fst (handleOnCompletion appendToEndOfFile calloutFixtureHeap 0 [2] (js ''archive.md'')
          mockFileWriter []) = []
   \<and> length (snd (handleOnCompletion appendToEndOfFile calloutFixtureHeap 0 [2] (js ''archive.md'')
          mockFileWriter [])) = 1"
proof -
  note t = handleOnCompletion_ToLogFile_appends_indented_line
  have 1: "js_includes (description (calloutFixtureHeap (last [2]))) (js '' '' @ checkeredFlag @ js '' '')"
    by code_simp
  have 2: "type (status (calloutFixtureHeap (last [2]))) = DONE"
    by (simp add: calloutFixtureHeap_def)
  have 3: "type (status (calloutFixtureHeap 0)) \<noteq> DONE"
    by (simp add: calloutFixtureHeap_def)
  have 4: "\<not> js_includes (description (calloutFixtureHeap (last [2]))) (checkeredFlag @ js '' Delete'')"
    by code_simp
  have 5: "js_includes (description (calloutFixtureHeap (last [2]))) (checkeredFlag @ js '' ToLogFile'')"
    by code_simp
  have "length (map (\<lambda>(filePath, fileContentUpdater). (filePath, fileContentUpdater []))
        (snd (handleOnCompletion appendToEndOfFile calloutFixtureHeap 0 [2] (js ''archive.md'')
               mockFileWriter [])))
      = length [(js ''archive.md'',
           (Inr (js ''   - [x] T '' @ checkeredFlag @ js '' ToLogFile'' @ NEWLINE) :: error + jsstring))]"
    using conjunct1[OF conjunct2[OF t]] by (rule arg_cong)
  then have 6: "length (snd (handleOnCompletion appendToEndOfFile calloutFixtureHeap 0 [2]
      (js ''archive.md'') mockFileWriter [])) = 1"
    by simp
  from 1 2 3 4 5 conjunct1[OF t] 6 show ?thesis
    by (intro conjI)
qed

subsection \<open>ToLogList and EndOfList\<close>

text \<open>
  Claim C9. On every input on which the EndOfList branch fires, \<open>handleOnCompletion\<close> does
  what the ToLogList action does, and so does the ToLogList branch on every input on
  which it fires: the returned list is the input without the changed task, and the
  file writer is called with the path of the changed task and the transform
  \<open>writeLineToListEnd\<close> with the heading \<^verbatim>\<open>## Archived Tasks - Appended\<close> and the
  normalized line.
\<close>

theorem handleOnCompletion_EndOfList_as_ToLogList:
  assumes "tasks \<noteq> []"
    and "js_includes (description (h (last tasks))) (js '' '' @ checkeredFlag @ js '' '')"
    and "type (status (h (last tasks))) = DONE"
    and "type (status (h task)) \<noteq> DONE"
    and "\<not> js_includes (description (h (last tasks))) (checkeredFlag @ js '' Delete'')"
    and "\<not> js_includes (description (h (last tasks))) (checkeredFlag @ js '' ToLogFile'')"
  shows "(js_includes (description (h (last tasks))) (checkeredFlag @ js '' EndOfList'')
           \<longrightarrow> handleOnCompletion A h task tasks p fw w = toLogListAction h tasks fw w)
       \<and> (js_includes (description (h (last tasks))) (checkeredFlag @ js '' ToLogList'')
           \<longrightarrow> handleOnCompletion A h task tasks p fw w = toLogListAction h tasks fw w)"
  using assms(5,6)
  by (simp add: handleOnCompletion_open[OF assms(1-4)] toLogListAction_def)

theorem handleOnCompletion_EndOfList_as_ToLogList_witness:
  "[2] \<noteq> ([] :: ref list)
   \<and> js_includes (description (fixtureHeap (js ''A task with '' @ checkeredFlag @ js '' EndOfList'') (last [2])))
       (js '' '' @ checkeredFlag @ js '' '')
   \<and> type (status (fixtureHeap (js ''A task with '' @ checkeredFlag @ js '' EndOfList'') (last [2]))) = DONE
   \<and> type (status (fixtureHeap (js ''A task with '' @ checkeredFlag @ js '' EndOfList'') 0)) \<noteq> DONE
   \<and> \<not> js_includes (description (fixtureHeap (js ''A task with '' @ checkeredFlag @ js '' EndOfList'') (last [2])))
       (checkeredFlag @ js '' Delete'')
   \<and> \<not> js_includes (description (fixtureHeap (js ''A task with '' @ checkeredFlag @ js '' EndOfList'') (last [2])))
       (checkeredFlag @ js '' ToLogFile'')
   \<and> js_includes (description (fixtureHeap (js ''A task with '' @ checkeredFlag @ js '' EndOfList'') (last [2])))
       (checkeredFlag @ js '' EndOfList'')
   \<and> handleOnCompletion (@) (fixtureHeap (js ''A task with '' @ checkeredFlag @ js '' EndOfList'')) 0 [2]
        (js ''archive.md'') mockFileWriter []
      = toLogListAction (fixtureHeap (js ''A task with '' @ checkeredFlag @ js '' EndOfList'')) [2]
          mockFileWriter []"
proof -
  let ?h = "fixtureHeap (js ''A task with '' @ checkeredFlag @ js '' EndOfList'')"
  have 1: "[2] \<noteq> ([] :: ref list)" by simp
  have 2: "js_includes (description (?h (last [2]))) (js '' '' @ checkeredFlag @ js '' '')"
    by code_simp
  have 3: "type (status (?h (last [2]))) = DONE"
    by (simp add: fixtureHeap_def)
  have 4: "type (status (?h 0)) \<noteq> DONE"
    by (simp add: fixtureHeap_def)
  have 5: "\<not> js_includes (description (?h (last [2]))) (checkeredFlag @ js '' Delete'')"
    by code_simp
  have 6: "\<not> js_includes (description (?h (last [2]))) (checkeredFlag @ js '' ToLogFile'')"
    by code_simp
  have 7: "js_includes (description (?h (last [2]))) (checkeredFlag @ js '' EndOfList'')"
    by code_simp
  from 7 handleOnCompletion_EndOfList_as_ToLogList[OF 1 2 3 4 5 6, where A = "(@)"
      and p = "js ''archive.md''" and fw = mockFileWriter and w = "[]"]
  have "handleOnCompletion (@) ?h 0 [2] (js ''archive.md'') mockFileWriter []
      = toLogListAction ?h [2] mockFileWriter []"
    by blast
  with 1 2 3 4 5 6 7 show ?thesis by blast
qed

subsection \<open>The returned list\<close>

text \<open>
  Claim C10. For every original task, successor list, path, file writer and world, the
  list returned by \<open>handleOnCompletion\<close> is the input list, or the input list without the
  elements identical to its last element, the others in their order. Tasks are not
  written to: the heap is an input only.
\<close>

theorem handleOnCompletion_returns_input_or_filtered:
  "fst (handleOnCompletion A h task tasks p fw w) = tasks
   \<or> fst (handleOnCompletion A h task tasks p fw w) = filter (\<lambda>t. t \<noteq> last tasks) tasks"
proof (cases "tasks = []
     \<or> \<not> js_includes (description (h (last tasks))) (js '' '' @ checkeredFlag @ js '' '')
     \<or> type (status (h (last tasks))) \<noteq> DONE
     \<or> type (status (h (last tasks))) = type (status (h task))")
  case True
  then show ?thesis by (simp add: handleOnCompletion_closed)
next
  case False
  then have "tasks \<noteq> []"
    and "js_includes (description (h (last tasks))) (js '' '' @ checkeredFlag @ js '' '')"
    and "type (status (h (last tasks))) = DONE"
    and "type (status (h task)) \<noteq> DONE"
    by auto
  then show ?thesis by (simp add: handleOnCompletion_open)
qed

theorem handleOnCompletion_returns_input_or_filtered_witness:
  "(fst (handleOnCompletion (@) (fixtureHeap (js ''A recurring task with '' @ checkeredFlag @ js '' ToLogList'')) 0
          [2, 1, 2] (js ''archive.md'') mockFileWriter []) = [2, 1, 2]
    \<or> fst (handleOnCompletion (@) (fixtureHeap (js ''A recurring task with '' @ checkeredFlag @ js '' ToLogList'')) 0
          [2, 1, 2] (js ''archive.md'') mockFileWriter []) = filter (\<lambda>t. t \<noteq> last [2, 1, 2]) [2, 1, 2])
   \<and> fst (handleOnCompletion (@) (fixtureHeap (js ''A recurring task with '' @ checkeredFlag @ js '' ToLogList'')) 0
          [2, 1, 2] (js ''archive.md'') mockFileWriter []) = [1]"
proof -
  have "fst (handleOnCompletion (@) (fixtureHeap (js ''A recurring task with '' @ checkeredFlag @ js '' ToLogList'')) 0
          [2, 1, 2] (js ''archive.md'') mockFileWriter []) = [1]"
    by code_simp
  with handleOnCompletion_returns_input_or_filtered
    [of "(@)" "fixtureHeap (js ''A recurring task with '' @ checkeredFlag @ js '' ToLogList'')" 0
        "[2, 1, 2]" "js ''archive.md''" mockFileWriter "[]"]
  show ?thesis by (intro conjI)
qed

subsection \<open>The normalizer\<close>

text \<open>
  Claim C7 says that the result of \<open>adjustLineForArchival\<close> starts neither with
  whitespace nor with a quote marker. The code trims first and strips the quote
  markers afterwards, so the indentation behind a quote marker stays. This is the input of the test
  "should remove indent from a string within a block quote|callout", which expects
  \<^verbatim>\<open>- [ ] An INDENTED incomplete task\<close>; the code returns the line with three leading
  spaces.
\<close>

theorem adjustLineForArchival_keeps_indent_behind_quotes:
  "adjustLineForArchival (js ''> >    - [ ] An INDENTED incomplete task'')
     = js ''   - [ ] An INDENTED incomplete task''
   \<and> isWhiteSpace (hd (adjustLineForArchival (js ''> >    - [ ] An INDENTED incomplete task'')))"
  by code_simp

text \<open>
  Claim C8 says that \<open>removeCalloutPrefixes\<close> and \<open>adjustLineForArchival\<close> are
  idempotent. The first is (\<open>removeCalloutPrefixes_idempotent\<close>). The second is not, for
  the same reason as in C7: a second run trims the indentation that the first run
  uncovered.
\<close>

theorem adjustLineForArchival_twice_differs:
  "adjustLineForArchival (js ''>  - [x] done'') = js '' - [x] done''
   \<and> adjustLineForArchival (adjustLineForArchival (js ''>  - [x] done'')) = js ''- [x] done''
   \<and> adjustLineForArchival (adjustLineForArchival (js ''>  - [x] done''))
       \<noteq> adjustLineForArchival (js ''>  - [x] done'')"
  by code_simp

subsection \<open>Insertion at the end of a list\<close>

text \<open>
  Claim C4, as amended. Let the text and the heading be non-empty and the heading be
  one of the lines of the file. Then the lines of the file are: some lines without the
  heading, the heading (its first occurrence), a block of list items, and the remaining
  lines, which are none or start with a line that is no list item. A list item is a line
  made of any number of \<^verbatim>\<open>"> "\<close>, any number of spaces, \<^verbatim>\<open>"- ["\<close>, one UTF-16 code unit
  that is not a line terminator (LF, CR, U+2028, U+2029), \<^verbatim>\<open>"]"\<close>, and anything behind.
  The result is these lines joined again, unchanged and in their order, with the text
  put in between the block and the remaining lines, right behind the heading when the
  block is empty, whatever follows the block. When the text holds no newline, it is
  exactly one new line of the result.
\<close>

theorem writeLineToListEnd_inserts_after_list:
  assumes "textToAppend \<noteq> []" and "targetListHeading \<noteq> []"
    and "targetListHeading \<in> set (splitNewline initialFileContent)"
  shows "\<exists>before block after.
           splitNewline initialFileContent = before @ targetListHeading # block @ after
         \<and> targetListHeading \<notin> set before
         \<and> (\<forall>l \<in> set block. \<exists>n m d rest.
                   l = concat (replicate n (js ''> '')) @ replicate m 0x0020
                         @ js ''- ['' @ [d] @ js '']'' @ rest
                 \<and> d \<notin> {0x000A, 0x000D, 0x2028, 0x2029})
         \<and> (after = [] \<or> \<not> (\<exists>n m d rest.
                   hd after = concat (replicate n (js ''> '')) @ replicate m 0x0020
                         @ js ''- ['' @ [d] @ js '']'' @ rest
                 \<and> d \<notin> {0x000A, 0x000D, 0x2028, 0x2029}))
         \<and> writeLineToListEnd initialFileContent targetListHeading textToAppend =
             Inr (joinNewline (before @ targetListHeading # block @ textToAppend # after))
         \<and> (0x000A \<notin> set textToAppend \<longrightarrow>
             splitNewline (joinNewline (before @ targetListHeading # block @ textToAppend # after))
               = before @ targetListHeading # block @ textToAppend # after)"
proof -
  from indexOf_present[OF assms(3)] obtain before rest where
    lines: "splitNewline initialFileContent = before @ targetListHeading # rest"
    and first: "targetListHeading \<notin> set before"
    by blast
  let ?block = "takeWhile test_TASK_REGEX rest" and ?after = "dropWhile test_TASK_REGEX rest"
  have 1: "splitNewline initialFileContent = before @ targetListHeading # ?block @ ?after"
    using lines by simp
  have "test_TASK_REGEX l" if "l \<in> set ?block" for l
    using that by (meson set_takeWhileD)
  then have 2: "\<forall>l \<in> set ?block. \<exists>n m d rest.
                   l = concat (replicate n (js ''> '')) @ replicate m 0x0020
                         @ js ''- ['' @ [d] @ js '']'' @ rest
                 \<and> d \<notin> {0x000A, 0x000D, 0x2028, 0x2029}"
    unfolding test_TASK_REGEX_iff isLineTerminator_def by blast
  have "?after = [] \<or> \<not> test_TASK_REGEX (hd ?after)"
    by (rule dropWhile_head)
  then have 3: "?after = [] \<or> \<not> (\<exists>n m d rest.
                   hd ?after = concat (replicate n (js ''> '')) @ replicate m 0x0020
                         @ js ''- ['' @ [d] @ js '']'' @ rest
                 \<and> d \<notin> {0x000A, 0x000D, 0x2028, 0x2029})"
    unfolding test_TASK_REGEX_iff isLineTerminator_def .
  have 4: "writeLineToListEnd initialFileContent targetListHeading textToAppend =
             Inr (joinNewline (before @ targetListHeading # ?block @ textToAppend # ?after))"
    using writeLineToListEnd_found[OF assms(1,2) lines first] .
  have 5: "splitNewline (joinNewline (before @ targetListHeading # ?block @ textToAppend # ?after))
               = before @ targetListHeading # ?block @ textToAppend # ?after"
    if "0x000A \<notin> set textToAppend"
  proof (rule splitNewline_joinNewline)
    show "before @ targetListHeading # ?block @ textToAppend # ?after \<noteq> []" by simp
  next
    fix l assume "l \<in> set (before @ targetListHeading # ?block @ textToAppend # ?after)"
    then have "l = textToAppend \<or> l \<in> set (before @ targetListHeading # ?block @ ?after)"
      by (auto simp del: takeWhile_dropWhile_id)
    then have "l = textToAppend \<or> l \<in> set (splitNewline initialFileContent)"
      by (simp only: 1)
    then show "0x000A \<notin> set l"
      using that splitNewline_lines[of l initialFileContent] by blast
  qed
  show ?thesis
    apply (rule exI[of _ before])
    apply (rule exI[of _ ?block])
    apply (rule exI[of _ ?after])
    using 1 first 2 3 4 5 apply (intro conjI impI)
         apply assumption+
    done
qed

text \<open>
  A witness: a list of two items, the second indented in a block quote, followed by an
  empty line and more text. The text goes behind the second item.
\<close>

theorem writeLineToListEnd_inserts_after_list_witness:
  "js ''- [-] new'' \<noteq> [] \<and> js ''## L'' \<noteq> []
   \<and> js ''## L'' \<in> set (splitNewline
         (js ''intro'' @ NEWLINE @ js ''## L'' @ NEWLINE @ js ''- [ ] a'' @ NEWLINE
            @ js ''>    - [x] b'' @ NEWLINE @ NEWLINE @ js ''end''))
   \<and> (\<exists>before block after.
           splitNewline (js ''intro'' @ NEWLINE @ js ''## L'' @ NEWLINE @ js ''- [ ] a'' @ NEWLINE
              @ js ''>    - [x] b'' @ NEWLINE @ NEWLINE @ js ''end'')
             = before @ js ''## L'' # block @ after
         \<and> js ''## L'' \<notin> set before
         \<and> (\<forall>l \<in> set block. \<exists>n m d rest.
                   l = concat (replicate n (js ''> '')) @ replicate m 0x0020
                         @ js ''- ['' @ [d] @ js '']'' @ rest
                 \<and> d \<notin> {0x000A, 0x000D, 0x2028, 0x2029})
         \<and> (after = [] \<or> \<not> (\<exists>n m d rest.
                   hd after = concat (replicate n (js ''> '')) @ replicate m 0x0020
                         @ js ''- ['' @ [d] @ js '']'' @ rest
                 \<and> d \<notin> {0x000A, 0x000D, 0x2028, 0x2029}))
         \<and> writeLineToListEnd (js ''intro'' @ NEWLINE @ js ''## L'' @ NEWLINE @ js ''- [ ] a''
                @ NEWLINE @ js ''>    - [x] b'' @ NEWLINE @ NEWLINE @ js ''end'') (js ''## L'')
               (js ''- [-] new'') =
             Inr (joinNewline (before @ js ''## L'' # block @ js ''- [-] new'' # after))
         \<and> (0x000A \<notin> set (js ''- [-] new'') \<longrightarrow>
             splitNewline (joinNewline (before @ js ''## L'' # block @ js ''- [-] new'' # after))
               = before @ js ''## L'' # block @ js ''- [-] new'' # after))
   \<and> writeLineToListEnd (js ''intro'' @ NEWLINE @ js ''## L'' @ NEWLINE @ js ''- [ ] a''
          @ NEWLINE @ js ''>    - [x] b'' @ NEWLINE @ NEWLINE @ js ''end'') (js ''## L'')
         (js ''- [-] new'')
       = Inr (js ''intro'' @ NEWLINE @ js ''## L'' @ NEWLINE @ js ''- [ ] a'' @ NEWLINE
          @ js ''>    - [x] b'' @ NEWLINE @ js ''- [-] new'' @ NEWLINE @ NEWLINE @ js ''end'')"
proof -
  have 1: "js ''- [-] new'' \<noteq> []"
    by (simp add: js_def)
  have 2: "js ''## L'' \<noteq> []"
    by (simp add: js_def)
  have 3: "js ''## L'' \<in> set (splitNewline
         (js ''intro'' @ NEWLINE @ js ''## L'' @ NEWLINE @ js ''- [ ] a'' @ NEWLINE
            @ js ''>    - [x] b'' @ NEWLINE @ NEWLINE @ js ''end''))"
    by code_simp
  have 4: "writeLineToListEnd (js ''intro'' @ NEWLINE @ js ''## L'' @ NEWLINE @ js ''- [ ] a''
          @ NEWLINE @ js ''>    - [x] b'' @ NEWLINE @ NEWLINE @ js ''end'') (js ''## L'')
         (js ''- [-] new'')
       = Inr (js ''intro'' @ NEWLINE @ js ''## L'' @ NEWLINE @ js ''- [ ] a'' @ NEWLINE
          @ js ''>    - [x] b'' @ NEWLINE @ js ''- [-] new'' @ NEWLINE @ NEWLINE @ js ''end'')"
    by code_simp
  from 1 2 3 writeLineToListEnd_inserts_after_list[OF 1 2 3] 4 show ?thesis
    by (intro conjI)
qed

text \<open>
  The claim as stated fails in two places. A text that holds a newline comes out as
  more than one new line: here two lines are inserted between the list item and the
  last line. And the character in the brackets cannot be any character: a carriage
  return there makes the line no list item, and the text goes in front of it.
\<close>

theorem writeLineToListEnd_two_new_lines:
  "writeLineToListEnd (js ''H'' @ NEWLINE @ js ''- [ ] a'' @ NEWLINE @ js ''z'') (js ''H'')
      (js ''t1'' @ NEWLINE @ js ''t2'')
     = Inr (js ''H'' @ NEWLINE @ js ''- [ ] a'' @ NEWLINE @ js ''t1'' @ NEWLINE @ js ''t2''
         @ NEWLINE @ js ''z'')
   \<and> splitNewline (js ''H'' @ NEWLINE @ js ''- [ ] a'' @ NEWLINE @ js ''z'')
       = [js ''H'', js ''- [ ] a'', js ''z'']
   \<and> splitNewline (js ''H'' @ NEWLINE @ js ''- [ ] a'' @ NEWLINE @ js ''t1'' @ NEWLINE @ js ''t2''
         @ NEWLINE @ js ''z'')
       = [js ''H'', js ''- [ ] a'', js ''t1'', js ''t2'', js ''z'']
   \<and> writeLineToListEnd (js ''H'' @ NEWLINE @ js ''- ['' @ [0x000D] @ js ''] a'') (js ''H'')
      (js ''t'')
     = Inr (js ''H'' @ NEWLINE @ js ''t'' @ NEWLINE @ js ''- ['' @ [0x000D] @ js ''] a'')"
  by code_simp

text \<open>
  Claim C5 says that, when the heading is not a line of the file, the text is inserted
  at the top of the file: behind the leading list items, or before the first line when
  that line is no list item. In the second case the code computes the index \<open>-1\<close>, the
  assignment does not touch the array, and the file is returned as it was: the text is
  lost.
\<close>

theorem writeLineToListEnd_heading_absent_text_lost:
  "js ''## Archived Tasks - Appended'' \<notin> set (splitNewline (js ''Some text''))
   \<and> \<not> test_TASK_REGEX (hd (splitNewline (js ''Some text'')))
   \<and> writeLineToListEnd (js ''Some text'') (js ''## Archived Tasks - Appended'')
        (js ''- [x] done'') = Inr (js ''Some text'')
   \<and> writeLineToListEnd (js ''Some text'') (js ''## Archived Tasks - Appended'')
        (js ''- [x] done'') \<noteq> Inr (js ''- [x] done'' @ NEWLINE @ js ''Some text'')"
  by code_simp

text \<open>
  Claim C6, as amended. With an empty text \<open>writeLineToListEnd\<close> returns the file
  content unchanged, whatever the heading is, also the empty one. With a text that is
  not empty and an empty heading it throws the configuration error. (The claim has the
  error for every text; the check of the text comes first in the code.)
\<close>

theorem writeLineToListEnd_edge_contract:
  "writeLineToListEnd initialFileContent targetListHeading [] = Inr initialFileContent
   \<and> (textToAppend \<noteq> [] \<longrightarrow>
        writeLineToListEnd initialFileContent [] textToAppend =
          Inl (Error (js ''Cannot move line to list as empty target list heading was supplied'')))"
  by (simp add: writeLineToListEnd_def)

theorem writeLineToListEnd_edge_contract_witness:
  "writeLineToListEnd (js ''heading'') (js ''heading'') [] = Inr (js ''heading'')
   \<and> js ''- [-] new'' \<noteq> []
   \<and> writeLineToListEnd (js ''heading'') [] (js ''- [-] new'') =
          Inl (Error (js ''Cannot move line to list as empty target list heading was supplied''))"
proof -
  have 1: "js ''- [-] new'' \<noteq> []"
    by (simp add: js_def)
  from 1 writeLineToListEnd_edge_contract
    [of "js ''heading''" "js ''heading''" "js ''- [-] new''"]
  show ?thesis by blast
qed

text \<open>
  The claim as stated fails where both the text and the heading are empty: the content
  comes back and nothing is thrown.
\<close>

theorem writeLineToListEnd_empty_text_empty_heading:
  "writeLineToListEnd (js ''heading'') [] [] = Inr (js ''heading'')
   \<and> \<not> isl (writeLineToListEnd (js ''heading'') [] [])"
  by (simp add: writeLineToListEnd_def)

end
